theory Spec2Isabelle
  imports Main
begin

section \<open>Configuration (Website.py, lines 86-88)\<close>

text \<open>
  \<^verbatim>\<open>os.environ\<close> is a dictionary from variable names to values. The two switches are
  read with \<^verbatim>\<open>os.environ.get(NAME, '1') == '1'\<close>. The poll interval is
  \<^verbatim>\<open>int(os.environ.get('GUESTBOOK_POLL_INTERVAL', '10'))\<close>; it reaches the poller as the
  argument \<open>interval\<close> of \<^verbatim>\<open>_poll_db\<close> and is an integer parameter of the model.
\<close>

type_synonym environ = "string \<rightharpoonup> string"

definition environ_get :: "environ \<Rightarrow> string \<Rightarrow> string \<Rightarrow> string" where
  "environ_get environ k d = (case environ k of None \<Rightarrow> d | Some v \<Rightarrow> v)"

definition ENABLE_POLLER :: "environ \<Rightarrow> bool" where
  "ENABLE_POLLER environ = (environ_get environ ''GUESTBOOK_ENABLE_POLLER'' ''1'' = ''1'')"

definition USE_CACHE :: "environ \<Rightarrow> bool" where
  "USE_CACHE environ = (environ_get environ ''GUESTBOOK_USE_CACHE'' ''1'' = ''1'')"

section \<open>Data model\<close>

text \<open>
  A Python \<^verbatim>\<open>str\<close> is the list of its code points: \<^verbatim>\<open>len\<close> counts code points and
  \<^verbatim>\<open>strip\<close> looks at them one by one.
\<close>

type_synonym str = "nat list"

definition str_of :: "string \<Rightarrow> str" where
  "str_of s = map of_char s"

text \<open>
  One row of table \<^verbatim>\<open>entries\<close> (lines 65-70), and also one dictionary of
  \<^verbatim>\<open>_entries_cache\<close> (\<^verbatim>\<open>dict(r)\<close> of such a row, line 105 and 136).
\<close>

record entry =
  e_id :: int
  e_name :: str
  e_message :: str
  e_created_at :: string

text \<open>The table, rows in insertion order. \<^verbatim>\<open>id\<close> is its primary key.\<close>

type_synonym store = "entry list"

text \<open>
  The module globals \<^verbatim>\<open>_entries_cache\<close>, \<^verbatim>\<open>_last_id\<close>, \<^verbatim>\<open>_last_mtime\<close> (lines 91-93).
  \<^verbatim>\<open>st_mtime\<close> is only tested for \<^verbatim>\<open>None\<close> and compared with \<^verbatim>\<open>!=\<close>, so an integer
  time stamp stands for it.
\<close>

record cache =
  entries_cache :: "entry list"
  last_id :: int
  last_mtime :: "int option"

text \<open>
  The process: the cache, the flag \<^verbatim>\<open>_poller_started\<close> (line 145) and the number of
  running threads whose target is \<^verbatim>\<open>_poll_db\<close>.
\<close>

record proc =
  cache_state :: cache
  poller_started :: bool
  poller_threads :: nat

definition init_cache :: cache where
  "init_cache = \<lparr>entries_cache = [], last_id = 0, last_mtime = None\<rparr>"

definition init_proc :: proc where
  "init_proc = \<lparr>cache_state = init_cache, poller_started = False, poller_threads = 0\<rparr>"

datatype exn =
    OSError | DatabaseError | ValueError | UnboundLocalError | OverflowError
  | RequestEntityTooLarge   \<comment> \<open>werkzeug's exception behind the answer 413\<close>
  | RateLimitExceeded       \<comment> \<open>flask-limiter's exception behind the answer 429\<close>

text \<open>
  What one operation sees of the outside while it runs: the result of
  \<^verbatim>\<open>DB_PATH.stat().st_mtime\<close> (\<open>None\<close> when it raises \<^verbatim>\<open>OSError\<close>); whether
  sqlite3 answers (\<open>False\<close>: connecting or executing raises); for every argument
  that is not negative the exception that \<^verbatim>\<open>time.sleep\<close> raises on this platform at
  this moment (\<^verbatim>\<open>OverflowError\<close> or \<^verbatim>\<open>OSError\<close> for an argument beyond what the
  platform can sleep), \<open>None\<close> where it returns; whether Talisman (lines 29-46)
  answers the request with a redirect to HTTPS, as it does with \<^verbatim>\<open>force_https\<close> on for
  a request that came over plain HTTP; and whether flask-limiter finds a limit of line
  49 or line 176 used up for the client of the request.
\<close>

record world =
  stat_mtime :: "int option"
  db_ok :: bool
  sleep_raises :: "int \<Rightarrow> exn option"
  sent_to_https :: bool
  limiter_refuses :: bool

text \<open>The effects of the poller that the claims speak about.\<close>

datatype effect =
    Queried int          \<comment> \<open>the \<^verbatim>\<open>WHERE id > ?\<close> query of line 131, with its parameter\<close>
  | Logged string exn    \<comment> \<open>\<^verbatim>\<open>logging.exception(text)\<close> for the exception caught\<close>
  | Slept int            \<comment> \<open>\<^verbatim>\<open>time.sleep(interval)\<close> returned\<close>

section \<open>The store's queries\<close>

definition order_by_id_desc :: "entry list \<Rightarrow> entry list" where
  "order_by_id_desc xs = rev (sort_key e_id xs)"

text \<open>\<^verbatim>\<open>SELECT ... FROM entries ORDER BY id DESC LIMIT k\<close> (lines 101 and 169).\<close>

definition select_newest :: "nat \<Rightarrow> store \<Rightarrow> entry list" where
  "select_newest k st = take k (order_by_id_desc st)"

text \<open>\<^verbatim>\<open>SELECT ... FROM entries WHERE id > ? ORDER BY id DESC\<close> (line 131).\<close>

definition select_newer :: "int \<Rightarrow> store \<Rightarrow> entry list" where
  "select_newer x st = order_by_id_desc (filter (\<lambda>e. e_id e > x) st)"

text \<open>
  \<^verbatim>\<open>INSERT INTO entries (name, message, created_at) VALUES (?, ?, ?)\<close> (line 195): the
  AUTOINCREMENT key is one more than the largest key of the table, 1 in an empty
  table (the application never deletes a row). The result is \<^verbatim>\<open>cur.lastrowid\<close> and
  the table after the commit.
\<close>

definition next_rowid :: "store \<Rightarrow> int" where
  "next_rowid st = 1 + fold max (map e_id st) 0"

text \<open>
  Keys are 64-bit integers: once the largest one, 9223372036854775807, is in the
  table, SQLite refuses every insert into an AUTOINCREMENT table.
\<close>

definition table_full :: "store \<Rightarrow> bool" where
  "table_full st = (9223372036854775807 \<le> fold max (map e_id st) 0)"

definition insert_row :: "str \<Rightarrow> str \<Rightarrow> string \<Rightarrow> store \<Rightarrow> int \<times> store" where
  "insert_row n m t st =
     (next_rowid st,
      st @ [\<lparr>e_id = next_rowid st, e_name = n, e_message = m, e_created_at = t\<rparr>])"

section \<open>The cache and the poller\<close>

text \<open>
  \<^verbatim>\<open>_load_initial_cache\<close> (lines 96-113). A failure of the query is caught by
  \<^verbatim>\<open>except Exception\<close> before any global is assigned. A failing \<^verbatim>\<open>stat\<close> sets
  \<^verbatim>\<open>_last_mtime\<close> to \<^verbatim>\<open>None\<close>.
\<close>

definition load_initial_cache :: "world \<Rightarrow> store \<Rightarrow> cache \<Rightarrow> cache" where
  "load_initial_cache w st c =
     (if db_ok w then
        (let rows = select_newest 100 st
         in \<lparr>entries_cache = rows,
             last_id = (case rows of [] \<Rightarrow> last_id c | r # _ \<Rightarrow> e_id r),
             last_mtime = stat_mtime w\<rparr>)
      else c)"

text \<open>
  \<^verbatim>\<open>time.sleep(interval)\<close> raises \<^verbatim>\<open>ValueError\<close> for a negative argument, and for
  the others what the platform makes of them.
\<close>

definition sleep :: "world \<Rightarrow> int \<Rightarrow> exn + unit" where
  "sleep w interval =
     (if interval < 0 then Inl ValueError
      else case sleep_raises w interval of Some e \<Rightarrow> Inl e | None \<Rightarrow> Inr ())"

text \<open>
  The body of the \<^verbatim>\<open>try\<close> of lines 120-139. It ends with an exception, with the
  \<^verbatim>\<open>continue\<close> of line 125, or by reaching its last line. Every statement that can
  raise (\<^verbatim>\<open>stat\<close>, \<^verbatim>\<open>sleep\<close>, the four database calls of lines 130-133) comes
  before the first assignment to a global, so the cache returned with an exception is
  the one the iteration started with.
\<close>

datatype flow = Continue | Falls_through

definition merge_rows :: "entry list \<Rightarrow> cache \<Rightarrow> cache" where
  "merge_rows rows c =
     (case rows of
        [] \<Rightarrow> c
      | r # _ \<Rightarrow> c\<lparr>entries_cache := rows @ entries_cache c,
                  last_id := max (last_id c) (e_id r)\<rparr>)"

definition poll_try :: "int \<Rightarrow> world \<Rightarrow> store \<Rightarrow> cache \<Rightarrow> effect list \<times> cache \<times> (exn + flow)" where
  "poll_try interval w st c =
     (case stat_mtime w of
        None \<Rightarrow>
          (case sleep w interval of
             Inl e \<Rightarrow> ([], c, Inl e)
           | Inr _ \<Rightarrow> ([Slept interval], c, Inr Continue))
      | Some mtime \<Rightarrow>
          (case last_mtime c of
             None \<Rightarrow> ([], c\<lparr>last_mtime := Some mtime\<rparr>, Inr Falls_through)
           | Some seen \<Rightarrow>
               if mtime \<noteq> seen then
                 (if db_ok w then
                    ([Queried (last_id c)],
                     (merge_rows (select_newer (last_id c) st) c)\<lparr>last_mtime := Some mtime\<rparr>,
                     Inr Falls_through)
                  else ([Queried (last_id c)], c, Inl DatabaseError))
               else ([], c, Inr Falls_through)))"

text \<open>
  One pass through the body of \<^verbatim>\<open>while True\<close> (lines 120-142): the \<^verbatim>\<open>try\<close>, its
  handler \<^verbatim>\<open>except Exception\<close> and the \<^verbatim>\<open>sleep\<close> of line 142, which is outside the
  \<^verbatim>\<open>try\<close>. The last component is the exception that leaves the loop, and with it
  ends the thread, if there is one.
\<close>

definition final_sleep :: "world \<Rightarrow> int \<Rightarrow> effect list \<Rightarrow> cache \<Rightarrow> effect list \<times> cache \<times> exn option" where
  "final_sleep w interval effs c =
     (case sleep w interval of
        Inl e \<Rightarrow> (effs, c, Some e)
      | Inr _ \<Rightarrow> (effs @ [Slept interval], c, None))"

definition poll_iteration :: "int \<Rightarrow> world \<Rightarrow> store \<Rightarrow> cache \<Rightarrow> effect list \<times> cache \<times> exn option" where
  "poll_iteration interval w st c =
     (case poll_try interval w st c of
        (effs, c', Inr Continue) \<Rightarrow> (effs, c', None)
      | (effs, c', Inr Falls_through) \<Rightarrow> final_sleep w interval effs c'
      | (effs, c', Inl e) \<Rightarrow> final_sleep w interval (effs @ [Logged ''DB poller error'' e]) c')"

text \<open>
  \<^verbatim>\<open>_poll_db\<close>: the loop has no exit of its own. It is run here on the worlds and
  tables that its successive iterations meet; when the list is used up the result
  shows whether the thread still runs (\<open>None\<close>) or which exception ended it.
\<close>

fun poll_db :: "int \<Rightarrow> (world \<times> store) list \<Rightarrow> cache \<Rightarrow> effect list \<times> cache \<times> exn option" where
  "poll_db interval [] c = ([], c, None)"
| "poll_db interval ((w, st) # ws) c =
     (case poll_iteration interval w st c of
        (effs, c', Some e) \<Rightarrow> (effs, c', Some e)
      | (effs, c', None) \<Rightarrow>
          (case poll_db interval ws c' of (effs', c'', r) \<Rightarrow> (effs @ effs', c'', r)))"

text \<open>\<^verbatim>\<open>_ensure_poller_started\<close> (lines 147-158), run before every request.\<close>

definition ensure_poller_started :: "environ \<Rightarrow> world \<Rightarrow> store \<Rightarrow> proc \<Rightarrow> proc" where
  "ensure_poller_started environ w st p =
     (if \<not> poller_started p then
        (let p1 = p\<lparr>poller_started := True\<rparr>;
             p2 = (if USE_CACHE environ
                   then p1\<lparr>cache_state := load_initial_cache w st (cache_state p1)\<rparr>
                   else p1)
         in if ENABLE_POLLER environ \<and> USE_CACHE environ
            then p2\<lparr>poller_threads := Suc (poller_threads p2)\<rparr>
            else p2)
      else p)"

section \<open>The request handlers\<close>

text \<open>
  \<^verbatim>\<open>index\<close> (lines 161-172). With the cache it hands the template a copy of the whole
  list of dictionaries; without it, the rows of the query of line 169, which selects
  \<^verbatim>\<open>name, message, created_at\<close>.
\<close>

datatype entries_view = Dicts "entry list" | Rows "(str \<times> str \<times> string) list"

definition index :: "environ \<Rightarrow> world \<Rightarrow> store \<Rightarrow> cache \<Rightarrow> exn + entries_view" where
  "index environ w st c =
     (if USE_CACHE environ then Inr (Dicts (entries_cache c))
      else if db_ok w
      then Inr (Rows (map (\<lambda>e. (e_name e, e_message e, e_created_at e)) (select_newest 100 st)))
      else Inl DatabaseError)"

text \<open>
  \<^verbatim>\<open>str.strip()\<close> removes the leading and trailing characters for which
  \<^verbatim>\<open>str.isspace\<close> holds.
\<close>

definition isspace :: "nat \<Rightarrow> bool" where
  "isspace c \<longleftrightarrow>
     (9 \<le> c \<and> c \<le> 13) \<or> (28 \<le> c \<and> c \<le> 32) \<or> c = 133 \<or> c = 160 \<or> c = 5760
     \<or> (8192 \<le> c \<and> c \<le> 8202) \<or> c = 8232 \<or> c = 8233 \<or> c = 8239 \<or> c = 8287
     \<or> c = 12288"

definition strip :: "str \<Rightarrow> str" where
  "strip s = rev (dropWhile isspace (rev (dropWhile isspace s)))"

text \<open>\<^verbatim>\<open>request.form\<close>: the two fields, each of which may be missing.\<close>

record form =
  form_name :: "str option"
  form_message :: "str option"

definition form_get :: "str option \<Rightarrow> str \<Rightarrow> str" where
  "form_get field d = (case field of None \<Rightarrow> d | Some v \<Rightarrow> v)"

text \<open>
  What \<^verbatim>\<open>submit\<close> flashes before it redirects to the index: one of the three texts
  of category \<^verbatim>\<open>'error'\<close>, or the thanks of category \<^verbatim>\<open>'success'\<close> (line 213). The
  third answer is not of the body of \<^verbatim>\<open>submit\<close>: Talisman's redirect to HTTPS, which
  flashes nothing.
\<close>

datatype outcome = Rejected string | Posted | To_https

text \<open>
  Lines 205-209. The name \<^verbatim>\<open>_entries_cache\<close> is assigned in \<^verbatim>\<open>submit\<close> (line 207) and
  \<^verbatim>\<open>submit\<close> declares only \<^verbatim>\<open>_last_id\<close> global (line 208), so in \<^verbatim>\<open>submit\<close> the name
  is a local variable of the function. The first argument is the binding of that
  local when line 207 reads it: \<open>None\<close> when it is unbound, and then the read raises
  \<^verbatim>\<open>UnboundLocalError\<close>. Otherwise line 207 binds the local and line 209 assigns the
  global \<^verbatim>\<open>_last_id\<close>.
\<close>

definition submit_update_cache :: "entry list option \<Rightarrow> entry \<Rightarrow> cache \<Rightarrow> exn + (entry list \<times> cache)" where
  "submit_update_cache local_entries_cache new c =
     (case local_entries_cache of
        None \<Rightarrow> Inl UnboundLocalError
      | Some xs \<Rightarrow> Inr (new # xs, c\<lparr>last_id := max (last_id c) (e_id new)\<rparr>))"

text \<open>
  The body of \<^verbatim>\<open>submit\<close> (lines 178-214) on the form that \<^verbatim>\<open>request.form\<close> yields.
  \<open>now\<close> is \<^verbatim>\<open>datetime.utcnow().isoformat()\<close>. Nothing binds the local
  \<^verbatim>\<open>_entries_cache\<close> before line 207. An exception of the database calls of lines
  193-200 is not caught in the handler. What stands in front of the body is in
  \<open>submit_request\<close> below.
\<close>

definition submit :: "environ \<Rightarrow> world \<Rightarrow> string \<Rightarrow> form \<Rightarrow> store \<Rightarrow> cache
    \<Rightarrow> exn + (outcome \<times> store \<times> cache \<times> effect list)" where
  "submit environ w now f st c =
     (let stripped = strip (form_get (form_name f) []);
          name = (if stripped = [] then str_of ''Anonymous'' else stripped);
          message = strip (form_get (form_message f) [])
      in if message = [] then Inr (Rejected ''Message is required.'', st, c, [])
         else if length name > 50
         then Inr (Rejected ''Name must be 50 characters or fewer.'', st, c, [])
         else if length message > 1000
         then Inr (Rejected ''Message is too long (max 1000 characters).'', st, c, [])
         else if db_ok w \<and> \<not> table_full st then
           (case insert_row name message now st of
              (last_row_id, st') \<Rightarrow>
                if USE_CACHE environ then
                  (case submit_update_cache None
                          \<lparr>e_id = last_row_id, e_name = name, e_message = message,
                           e_created_at = now\<rparr> c of
                     Inl e \<Rightarrow> Inr (Posted, st', c, [Logged ''Failed to update cache on submit'' e])
                   | Inr (_, c') \<Rightarrow> Inr (Posted, st', c', []))
                else Inr (Posted, st', c, []))
         else Inl DatabaseError)"

text \<open>
  A POST to \<^verbatim>\<open>/submit\<close> as it arrives: the form that werkzeug parses from the body,
  and the number of bytes of the body beyond one for each code point of the two values
  (field names, separators, escapes, the further bytes of a code point, other
  fields). The Content-Length is their sum: every code point of a value comes from at
  least one byte of the body.
\<close>

record http_post =
  post_form :: form
  post_overhead :: nat

definition content_length :: "http_post \<Rightarrow> nat" where
  "content_length r =
     length (form_get (form_name (post_form r)) [])
     + length (form_get (form_message (post_form r)) []) + post_overhead r"

text \<open>\<^verbatim>\<open>app.config['MAX_CONTENT_LENGTH'] = 8 * 1024\<close> (line 25).\<close>

definition MAX_CONTENT_LENGTH :: nat where
  "MAX_CONTENT_LENGTH = 8 * 1024"

text \<open>
  The route \<^verbatim>\<open>/submit\<close> (lines 175-214) as the application answers it. Talisman
  (line 35) comes first and may answer with its redirect. flask-limiter (line 49, and
  line 176 for this route) raises before the body runs when a limit is used up, and
  the answer is 429. The first statement of the body reads \<^verbatim>\<open>request.form\<close> (line
  178), which raises when the Content-Length is above \<^verbatim>\<open>MAX_CONTENT_LENGTH\<close>, and the
  answer is 413. None of the three writes the table or the cache.
\<close>

definition submit_request :: "environ \<Rightarrow> world \<Rightarrow> string \<Rightarrow> http_post \<Rightarrow> store \<Rightarrow> cache
    \<Rightarrow> exn + (outcome \<times> store \<times> cache \<times> effect list)" where
  "submit_request environ w now r st c =
     (if sent_to_https w then Inr (To_https, st, c, [])
      else if limiter_refuses w then Inl RateLimitExceeded
      else if content_length r > MAX_CONTENT_LENGTH then Inl RequestEntityTooLarge
      else submit environ w now (post_form r) st c)"

section \<open>Runs of the process\<close>

text \<open>
  What happens to the table and to the process, one event at a time: a request that
  this process serves (\<^verbatim>\<open>_ensure_poller_started\<close>, then the handler), one iteration
  of the poller thread if it runs, or a row inserted by another process that shares
  the table. The form of a \<open>POST_submit\<close> is one that reached the body of \<^verbatim>\<open>submit\<close>;
  a request that is answered 413, 429 or with Talisman's redirect writes neither the
  table nor the cache and leaves the process as a \<open>GET_index\<close> does, or as it was.
\<close>

datatype request = GET_index | POST_submit form

datatype event =
    Request world string request
  | Poll world
  | Foreign_insert str str string

fun step :: "environ \<Rightarrow> int \<Rightarrow> event \<Rightarrow> store \<times> proc \<Rightarrow> store \<times> proc" where
  "step environ interval (Request w now r) (st, p) =
     (let p1 = ensure_poller_started environ w st p
      in case r of
           GET_index \<Rightarrow> (st, p1)
         | POST_submit f \<Rightarrow>
             (case submit environ w now f st (cache_state p1) of
                Inl e \<Rightarrow> (st, p1)
              | Inr (out, st', c', logs) \<Rightarrow> (st', p1\<lparr>cache_state := c'\<rparr>)))"
| "step environ interval (Poll w) (st, p) =
     (if poller_threads p = 0 then (st, p)
      else
        (case poll_iteration interval w st (cache_state p) of
           (effs, c', None) \<Rightarrow> (st, p\<lparr>cache_state := c'\<rparr>)
         | (effs, c', Some e) \<Rightarrow>
             (st, p\<lparr>cache_state := c', poller_threads := poller_threads p - 1\<rparr>)))"
| "step environ interval (Foreign_insert n m t) (st, p) =
     (if table_full st then (st, p) else (snd (insert_row n m t st), p))"

definition run :: "environ \<Rightarrow> int \<Rightarrow> event list \<Rightarrow> store \<times> proc \<Rightarrow> store \<times> proc" where
  "run environ interval evs s = fold (step environ interval) evs s"

section \<open>Properties of a cache and of an effect list\<close>

text \<open>The ids of a list of entries are strictly descending.\<close>

definition ids_desc :: "entry list \<Rightarrow> bool" where
  "ids_desc xs = sorted_wrt (>) (map e_id xs)"

text \<open>\<^verbatim>\<open>_last_id\<close> is at least the id of every cached entry.\<close>

definition ids_bounded :: "cache \<Rightarrow> bool" where
  "ids_bounded c = (\<forall>e \<in> set (entries_cache c). e_id e \<le> last_id c)"

text \<open>The table respects its primary key and the cache has both properties.\<close>

definition cache_ok :: "store \<times> proc \<Rightarrow> bool" where
  "cache_ok s =
     (distinct (map e_id (fst s)) \<and> ids_desc (entries_cache (cache_state (snd s)))
      \<and> ids_bounded (cache_state (snd s)))"

text \<open>The parameters of the queries that an effect list records, in order.\<close>

fun queries :: "effect list \<Rightarrow> int list" where
  "queries [] = []"
| "queries (Queried x # effs) = x # queries effs"
| "queries (_ # effs) = queries effs"

section \<open>Concrete inputs\<close>

definition example_row :: "int \<Rightarrow> entry" where
  "example_row i =
     \<lparr>e_id = i, e_name = str_of ''Bob'', e_message = str_of ''hello'',
      e_created_at = ''2024-01-01T00:00:00''\<rparr>"

text \<open>
  A platform whose \<^verbatim>\<open>time.sleep\<close> raises \<^verbatim>\<open>OverflowError\<close> above 9223372036 seconds,
  the whole seconds of the largest 64-bit count of nanoseconds, and \<^verbatim>\<open>OSError\<close> at
  that number.
\<close>

definition platform_sleep :: "int \<Rightarrow> exn option" where
  "platform_sleep i =
     (if 9223372036 < i then Some OverflowError
      else if i = 9223372036 then Some OSError else None)"

definition world_ok :: "int \<Rightarrow> world" where
  "world_ok m =
     \<lparr>stat_mtime = Some m, db_ok = True, sleep_raises = platform_sleep,
      sent_to_https = False, limiter_refuses = False\<rparr>"

definition world_db_down :: "int \<Rightarrow> world" where
  "world_db_down m =
     \<lparr>stat_mtime = Some m, db_ok = False, sleep_raises = platform_sleep,
      sent_to_https = False, limiter_refuses = False\<rparr>"

definition world_no_stat :: world where
  "world_no_stat =
     \<lparr>stat_mtime = None, db_ok = True, sleep_raises = platform_sleep,
      sent_to_https = False, limiter_refuses = False\<rparr>"

definition world_plain_http :: world where
  "world_plain_http =
     \<lparr>stat_mtime = Some 1, db_ok = True, sleep_raises = platform_sleep,
      sent_to_https = True, limiter_refuses = False\<rparr>"

definition world_limited :: world where
  "world_limited =
     \<lparr>stat_mtime = Some 1, db_ok = True, sleep_raises = platform_sleep,
      sent_to_https = False, limiter_refuses = True\<rparr>"

definition form_of :: "str \<Rightarrow> str \<Rightarrow> form" where
  "form_of n m = \<lparr>form_name = Some n, form_message = Some m\<rparr>"

definition example_store :: store where
  "example_store = [example_row 1, example_row 2]"

definition example_events :: "event list" where
  "example_events =
     [Request (world_ok 1) ''t1'' (POST_submit (form_of (str_of ''Ann'') (str_of ''hi''))),
      Foreign_insert [66] [67] ''t2'', Poll (world_ok 2)]"

definition full_store :: store where
  "full_store = map (\<lambda>i. example_row (int i)) [1..<101]"

definition growth_events :: "event list" where
  "growth_events =
     [Request (world_ok 1) ''t1'' GET_index, Foreign_insert [66] [67] ''t2'', Poll (world_ok 2)]"

definition alice_form :: form where
  "alice_form = form_of (str_of ''Alice'') (str_of ''hi'')"

definition alice_entry :: entry where
  "alice_entry = \<lparr>e_id = 1, e_name = str_of ''Alice'', e_message = str_of ''hi'', e_created_at = ''t1''\<rparr>"

definition padded_form :: form where
  "padded_form = form_of (65 # replicate 50 32) (str_of ''hi'')"

definition blank_name_form :: form where
  "blank_name_form = form_of [] (str_of ''yo'')"

text \<open>The body \<^verbatim>\<open>name=&message=yo\<close>: 14 bytes beside the values.\<close>

definition blank_name_post :: http_post where
  "blank_name_post = \<lparr>post_form = blank_name_form, post_overhead = 14\<rparr>"

text \<open>The same with a name of 9000 spaces.\<close>

definition spaces_name_post :: http_post where
  "spaces_name_post =
     \<lparr>post_form = form_of (replicate 9000 32) (str_of ''yo''), post_overhead = 14\<rparr>"

definition seen_cache :: "int \<Rightarrow> cache" where
  "seen_cache m = \<lparr>entries_cache = [], last_id = 0, last_mtime = Some m\<rparr>"

definition empty_message_form :: form where
  "empty_message_form = \<lparr>form_name = None, form_message = Some []\<rparr>"

section \<open>Theorems\<close>

lemmas model_defs = run_def example_events_def example_store_def example_row_def world_ok_def
  init_proc_def init_cache_def ensure_poller_started_def USE_CACHE_def ENABLE_POLLER_def
  environ_get_def load_initial_cache_def select_newest_def order_by_id_desc_def
  poll_iteration_def poll_try_def final_sleep_def sleep_def platform_sleep_def merge_rows_def
  select_newer_def table_full_def
  insert_row_def next_rowid_def str_of_def submit_def submit_update_cache_def form_of_def
  form_get_def strip_def isspace_def index_def Let_def

subsection \<open>The queries\<close>


lemma set_order_by_id_desc: "set (order_by_id_desc xs) = set xs"
  by (simp add: order_by_id_desc_def)

lemma sorted_order_by_id_desc: "sorted_wrt (\<ge>) (map e_id (order_by_id_desc xs))"
  by (simp add: order_by_id_desc_def rev_map [symmetric] sorted_wrt_rev)

lemma distinct_order_by_id_desc:
  "distinct (map e_id (order_by_id_desc xs)) = distinct (map e_id xs)"
  by (simp add: order_by_id_desc_def rev_map [symmetric] distinct_map)

lemma strict_desc_iff:
  "sorted_wrt (>) (ys :: int list) \<longleftrightarrow> sorted_wrt (\<ge>) ys \<and> distinct ys"
  by (induction ys) (auto simp: less_le)

lemma ids_desc_order_by:
  "distinct (map e_id xs) \<Longrightarrow> ids_desc (order_by_id_desc xs)"
  by (simp add: ids_desc_def strict_desc_iff sorted_order_by_id_desc distinct_order_by_id_desc)

lemma ids_desc_take: "ids_desc xs \<Longrightarrow> ids_desc (take k xs)"
  unfolding ids_desc_def by (simp add: take_map [symmetric] sorted_wrt_take)

lemma ids_desc_distinct: "ids_desc xs \<Longrightarrow> distinct (map e_id xs)"
  by (simp add: ids_desc_def strict_desc_iff)

lemma ids_desc_select_newest: "distinct (map e_id st) \<Longrightarrow> ids_desc (select_newest k st)"
  by (simp add: select_newest_def ids_desc_take ids_desc_order_by)

lemma ids_desc_select_newer: "distinct (map e_id st) \<Longrightarrow> ids_desc (select_newer x st)"
  by (simp add: select_newer_def ids_desc_order_by distinct_map_filter)

lemma set_select_newer: "set (select_newer x st) = {e \<in> set st. x < e_id e}"
  by (auto simp: select_newer_def set_order_by_id_desc)

lemma head_is_greatest:
  "sorted_wrt (\<ge>) (map e_id (r # rs)) \<Longrightarrow> e \<in> set (r # rs) \<Longrightarrow> e_id e \<le> e_id r"
  by auto

lemma select_newest_head:
  "select_newest k st = r # rs \<Longrightarrow> e \<in> set (r # rs) \<Longrightarrow> e_id e \<le> e_id r"
proof -
  assume eq: "select_newest k st = r # rs" and mem: "e \<in> set (r # rs)"
  have "sorted_wrt (\<ge>) (map e_id (take k (order_by_id_desc st)))"
    by (simp add: take_map [symmetric] sorted_wrt_take sorted_order_by_id_desc del: take_map)
  then have "sorted_wrt (\<ge>) (map e_id (r # rs))"
    using eq by (simp add: select_newest_def)
  then show ?thesis using mem by (rule head_is_greatest)
qed

lemma select_newer_head:
  "select_newer x st = r # rs \<Longrightarrow> e \<in> set (r # rs) \<Longrightarrow> e_id e \<le> e_id r"
proof -
  assume eq: "select_newer x st = r # rs" and mem: "e \<in> set (r # rs)"
  have "sorted_wrt (\<ge>) (map e_id (select_newer x st))"
    by (simp add: select_newer_def sorted_order_by_id_desc)
  then have "sorted_wrt (\<ge>) (map e_id (r # rs))"
    using eq by simp
  then show ?thesis using mem by (rule head_is_greatest)
qed

lemma ids_bounded_load: "ids_bounded c \<Longrightarrow> ids_bounded (load_initial_cache w st c)"
  unfolding load_initial_cache_def ids_bounded_def Let_def
  by (auto split: list.splits dest: select_newest_head)

lemma ids_desc_load:
  "distinct (map e_id st) \<Longrightarrow> ids_desc (entries_cache c)
   \<Longrightarrow> ids_desc (entries_cache (load_initial_cache w st c))"
  by (simp add: load_initial_cache_def Let_def ids_desc_select_newest)

lemma ids_bounded_merge:
  "ids_bounded c \<Longrightarrow> ids_bounded (merge_rows (select_newer (last_id c) st) c)"
  unfolding merge_rows_def ids_bounded_def
  by (auto split: list.splits dest: select_newer_head simp: max_def)

lemma ids_desc_append:
  "ids_desc xs \<Longrightarrow> ids_desc ys \<Longrightarrow> (\<forall>x\<in>set xs. \<forall>y\<in>set ys. e_id y < e_id x)
   \<Longrightarrow> ids_desc (xs @ ys)"
  by (auto simp: ids_desc_def sorted_wrt_append)

lemma ids_desc_merge:
  assumes "distinct (map e_id st)" "ids_desc (entries_cache c)" "ids_bounded c"
  shows "ids_desc (entries_cache (merge_rows (select_newer (last_id c) st) c))"
proof (cases "select_newer (last_id c) st")
  case Nil
  then show ?thesis using assms by (simp add: merge_rows_def)
next
  case (Cons r rs)
  have "\<forall>x\<in>set (select_newer (last_id c) st). \<forall>y\<in>set (entries_cache c). e_id y < e_id x"
    using assms(3) by (fastforce simp: set_select_newer ids_bounded_def)
  then have "ids_desc (select_newer (last_id c) st @ entries_cache c)"
    using assms by (intro ids_desc_append ids_desc_select_newer)
  then show ?thesis using Cons by (simp add: merge_rows_def)
qed

lemma next_rowid_fresh: "e \<in> set st \<Longrightarrow> e_id e < next_rowid st"
proof -
  assume "e \<in> set st"
  then have "e_id e \<in> set (0 # map e_id st)" by simp
  then have "e_id e \<le> Max (set (0 # map e_id st))" by (intro Max_ge) auto
  also have "Max (set (0 # map e_id st)) = fold max (map e_id st) 0"
    by (rule Max.set_eq_fold)
  finally show ?thesis by (simp add: next_rowid_def)
qed

lemma distinct_insert_row:
  "distinct (map e_id st) \<Longrightarrow> distinct (map e_id (snd (insert_row n m t st)))"
  using next_rowid_fresh by (fastforce simp: insert_row_def)

lemma submit_cache_unchanged:
  "submit environ w now f st c = Inr (out, st', c', logs) \<Longrightarrow> c' = c"
  by (auto simp: submit_def Let_def submit_update_cache_def insert_row_def split: if_splits)

lemma submit_store:
  "submit environ w now f st c = Inr (out, st', c', logs) \<Longrightarrow>
   st' = st \<or> (\<exists>n m. st' = snd (insert_row n m now st))"
  by (auto simp: submit_def Let_def submit_update_cache_def insert_row_def split: if_splits)


lemma queries_append: "queries (xs @ ys) = queries xs @ queries ys"
  by (induction xs rule: queries.induct) simp_all

lemma final_sleep_cache: "fst (snd (final_sleep w interval effs c)) = c"
  by (simp add: final_sleep_def split: sum.split)

lemma final_sleep_queries: "queries (fst (final_sleep w interval effs c)) = queries effs"
  by (simp add: final_sleep_def queries_append split: sum.split)

lemma poll_iteration_cache:
  "fst (snd (poll_iteration interval w st c)) = c
   \<or> fst (snd (poll_iteration interval w st c)) = c\<lparr>last_mtime := stat_mtime w\<rparr>
   \<or> fst (snd (poll_iteration interval w st c))
       = (merge_rows (select_newer (last_id c) st) c)\<lparr>last_mtime := stat_mtime w\<rparr>"
  by (auto simp: poll_iteration_def poll_try_def final_sleep_cache
      split: option.split sum.split)


lemma ids_bounded_mtime [simp]: "ids_bounded (c\<lparr>last_mtime := m\<rparr>) = ids_bounded c"
  by (simp add: ids_bounded_def)

lemma ids_bounded_poll:
  "ids_bounded c \<Longrightarrow> ids_bounded (fst (snd (poll_iteration interval w st c)))"
  using poll_iteration_cache [of interval w st c] ids_bounded_merge [of c st]
  by auto

lemma ids_desc_poll:
  assumes "distinct (map e_id st)" "ids_desc (entries_cache c)" "ids_bounded c"
  shows "ids_desc (entries_cache (fst (snd (poll_iteration interval w st c))))"
  using poll_iteration_cache [of interval w st c] ids_desc_merge [OF assms] assms(2)
  by auto

lemma ids_bounded_ensure:
  "ids_bounded (cache_state p)
   \<Longrightarrow> ids_bounded (cache_state (ensure_poller_started environ w st p))"
  by (simp add: ensure_poller_started_def Let_def ids_bounded_load)

lemma ids_desc_ensure:
  "distinct (map e_id st) \<Longrightarrow> ids_desc (entries_cache (cache_state p))
   \<Longrightarrow> ids_desc (entries_cache (cache_state (ensure_poller_started environ w st p)))"
  by (simp add: ensure_poller_started_def Let_def ids_desc_load)

lemma ids_bounded_step:
  "ids_bounded (cache_state (snd s))
   \<Longrightarrow> ids_bounded (cache_state (snd (step environ interval ev s)))"
proof (cases s)
  case (Pair st p)
  assume b: "ids_bounded (cache_state (snd s))"
  show ?thesis
  proof (cases ev)
    case (Request w now r)
    have e: "ids_bounded (cache_state (ensure_poller_started environ w st p))"
      using b Pair by (simp add: ids_bounded_ensure)
    show ?thesis
    proof (cases r)
      case GET_index
      then show ?thesis using e Pair Request by simp
    next
      case (POST_submit f)
      then show ?thesis using e Pair Request
        by (auto simp: Let_def split: sum.splits dest: submit_cache_unchanged)
    qed
  next
    case (Poll w)
    then show ?thesis
      using b Pair ids_bounded_poll [of "cache_state p" interval w st]
      by (auto split: prod.splits option.splits)
  next
    case (Foreign_insert n m t)
    then show ?thesis using b Pair by simp
  qed
qed

lemma cache_ok_step: "cache_ok s \<Longrightarrow> cache_ok (step environ interval ev s)"
proof (cases s)
  case (Pair st p)
  assume ok: "cache_ok s"
  then have d: "distinct (map e_id st)" and a: "ids_desc (entries_cache (cache_state p))"
    and b: "ids_bounded (cache_state p)"
    using Pair by (simp_all add: cache_ok_def)
  show ?thesis
  proof (cases ev)
    case (Request w now r)
    let ?p1 = "ensure_poller_started environ w st p"
    have e: "ids_bounded (cache_state ?p1)" "ids_desc (entries_cache (cache_state ?p1))"
      using a b d by (simp_all add: ids_bounded_ensure ids_desc_ensure)
    show ?thesis
    proof (cases r)
      case GET_index
      then show ?thesis using e d Pair Request by (simp add: cache_ok_def)
    next
      case (POST_submit f)
      show ?thesis
      proof (cases "submit environ w now f st (cache_state ?p1)")
        case (Inl x)
        then show ?thesis using e d Pair Request POST_submit by (simp add: cache_ok_def)
      next
        case (Inr res)
        obtain out st' c' logs where res: "res = (out, st', c', logs)"
          by (cases res) auto
        have c': "c' = cache_state ?p1"
          using Inr res by (auto dest: submit_cache_unchanged)
        have "distinct (map e_id st')"
          using submit_store [of environ w now f st "cache_state ?p1" out st' c' logs] Inr res d
          by (auto simp: distinct_insert_row)
        then show ?thesis using e c' Pair Request POST_submit Inr res
          by (simp add: cache_ok_def)
      qed
    qed
  next
    case (Poll w)
    then show ?thesis
      using a b d Pair ids_bounded_poll [of "cache_state p" interval w st]
        ids_desc_poll [of st "cache_state p" interval w]
      by (auto simp: cache_ok_def split: prod.splits option.splits)
  next
    case (Foreign_insert n m t)
    then show ?thesis using a b d Pair by (simp add: cache_ok_def distinct_insert_row)
  qed
qed

lemma ids_bounded_run:
  "ids_bounded (cache_state (snd s))
   \<Longrightarrow> ids_bounded (cache_state (snd (run environ interval evs s)))"
  unfolding run_def by (induction evs arbitrary: s) (simp_all add: ids_bounded_step)

lemma cache_ok_run: "cache_ok s \<Longrightarrow> cache_ok (run environ interval evs s)"
  unfolding run_def by (induction evs arbitrary: s) (simp_all add: cache_ok_step)

subsection \<open>The poller loop, the merge and the form fields\<close>

lemma poll_iteration_sleeps:
  assumes "sleep w interval = Inr ()"
  shows "\<exists>effs c'. poll_iteration interval w st c = (effs @ [Slept interval], c', None)
           \<and> Slept interval \<notin> set effs"
  using assms
  by (auto simp: poll_iteration_def poll_try_def final_sleep_def split: option.split)

lemma poll_db_sleeps:
  assumes "\<forall>x \<in> set ws. sleep (fst x) interval = Inr ()"
  shows "snd (snd (poll_db interval ws c)) = None
       \<and> length (filter (\<lambda>e. e = Slept interval) (fst (poll_db interval ws c))) = length ws"
  using assms
proof (induction ws arbitrary: c)
  case Nil
  show ?case by simp
next
  case (Cons a ws)
  obtain w st where a: "a = (w, st)" by (cases a)
  have "sleep w interval = Inr ()"
    using Cons.prems a by simp
  then obtain effs c' where it: "poll_iteration interval w st c = (effs @ [Slept interval], c', None)"
    and no: "Slept interval \<notin> set effs"
    using poll_iteration_sleeps by blast
  have f: "filter (\<lambda>e. e = Slept interval) effs = []"
    using no by (auto simp: filter_empty_conv)
  have "\<forall>x \<in> set ws. sleep (fst x) interval = Inr ()"
    using Cons.prems by simp
  then show ?case
    using Cons.IH [of c'] a it f by (auto split: prod.splits)
qed

lemma select_newer_sorted: "sorted_wrt (\<ge>) (map e_id (select_newer x st))"
  by (simp add: select_newer_def sorted_order_by_id_desc)

lemma select_newer_max:
  assumes "select_newer x st = r # rs"
  shows "max x (e_id r) = Max (e_id ` set (select_newer x st))"
proof -
  have "r \<in> set (select_newer x st)" using assms by simp
  then have gt: "x < e_id r" by (simp add: set_select_newer)
  have "Max (e_id ` set (r # rs)) = e_id r"
  proof (rule Max_eqI)
    show "finite (e_id ` set (r # rs))" by simp
    show "y \<le> e_id r" if "y \<in> e_id ` set (r # rs)" for y
      using that select_newer_head [OF assms] by auto
    show "e_id r \<in> e_id ` set (r # rs)" by simp
  qed
  then show ?thesis using gt assms by (simp add: max_def)
qed

lemma strip_blank:
  assumes "\<forall>ch \<in> set s. isspace ch"
  shows "strip s = []"
proof -
  have d: "dropWhile isspace s = []"
    using assms by (induction s) auto
  show ?thesis unfolding strip_def d by simp
qed

lemma submit_blank_name:
  assumes "\<forall>ch \<in> set (form_get (form_name f) []). isspace ch"
    and "strip (form_get (form_message f) []) \<noteq> []"
    and "length (strip (form_get (form_message f) [])) \<le> 1000"
    and "db_ok w" and "\<not> table_full st"
  shows "\<exists>logs. submit environ w now f st c
           = Inr (Posted,
                  st @ [\<lparr>e_id = next_rowid st, e_name = str_of ''Anonymous'',
                         e_message = strip (form_get (form_message f) []),
                         e_created_at = now\<rparr>],
                  c, logs)"
  using assms strip_blank [OF assms(1)]
  by (simp add: submit_def Let_def str_of_def insert_row_def submit_update_cache_def)

lemma strip_padded: "strip (65 # replicate 50 32) = [65]"
proof -
  have a: "dropWhile isspace (65 # replicate 50 32) = 65 # replicate 50 32"
    by (simp add: isspace_def)
  have b: "rev (65 # replicate 50 32) = replicate 50 32 @ [65::nat]"
    by simp
  have c: "dropWhile isspace (replicate 50 32 @ [65]) = [65]"
    by (simp add: dropWhile_append isspace_def)
  show ?thesis unfolding strip_def a b c by simp
qed

subsection \<open>The claims\<close>

text \<open>
  C1. Whatever requests, poller iterations and inserts of other processes a process has
  gone through since its start, over a table that respects its primary key, the list
  that \<^verbatim>\<open>index\<close> serves with the cache enabled has strictly descending ids, hence no
  id twice. Each request and each poller iteration is one step of the run.
\<close>

theorem snapshot_ids_strictly_descending:
  assumes "distinct (map e_id st)" and "USE_CACHE environ"
    and "run environ interval evs (st, init_proc) = (st', p')"
  shows "\<exists>xs. index environ w st' (cache_state p') = Inr (Dicts xs)
           \<and> sorted_wrt (>) (map e_id xs) \<and> distinct (map e_id xs)"
proof -
  have "cache_ok (st, init_proc)"
    using assms(1)
    by (simp add: cache_ok_def init_proc_def init_cache_def ids_desc_def ids_bounded_def)
  then have "cache_ok (run environ interval evs (st, init_proc))"
    by (rule cache_ok_run)
  then have d: "ids_desc (entries_cache (cache_state p'))"
    using assms(3) by (simp add: cache_ok_def)
  have "index environ w st' (cache_state p') = Inr (Dicts (entries_cache (cache_state p')))"
    using assms(2) by (simp add: index_def)
  then show ?thesis
    using d ids_desc_distinct [OF d] by (simp add: ids_desc_def)
qed

theorem snapshot_ids_strictly_descending_witness:
  "distinct (map e_id example_store) \<and> USE_CACHE Map.empty
   \<and> map e_id (entries_cache (cache_state
        (snd (run Map.empty 10 example_events (example_store, init_proc))))) = [4, 3, 2, 1]
   \<and> (\<exists>xs. index Map.empty (world_ok 2)
          (fst (run Map.empty 10 example_events (example_store, init_proc)))
          (cache_state (snd (run Map.empty 10 example_events (example_store, init_proc))))
          = Inr (Dicts xs)
        \<and> sorted_wrt (>) (map e_id xs) \<and> distinct (map e_id xs))"
proof -
  have d: "distinct (map e_id example_store)"
    by (simp add: example_store_def example_row_def)
  have u: "USE_CACHE Map.empty"
    by (simp add: USE_CACHE_def environ_get_def)
  have v: "map e_id (entries_cache (cache_state
        (snd (run Map.empty 10 example_events (example_store, init_proc))))) = [4, 3, 2, 1]"
    by (simp add: model_defs)
  from snapshot_ids_strictly_descending [OF d u surjective_pairing,
      where interval = 10 and evs = example_events and w = "world_ok 2"]
  show ?thesis using d u v by blast
qed

text \<open>
  C6. \<^verbatim>\<open>_last_id\<close> stays at least the id of every cached entry: the initial load, the
  merge of the poller, a whole poller iteration and the \<^verbatim>\<open>submit\<close> handler each keep
  the bound, and so does every run of the process.
\<close>

theorem last_id_bounds_cache:
  assumes "ids_bounded (cache_state p)"
  shows "ids_bounded (load_initial_cache w st (cache_state p))
       \<and> ids_bounded (merge_rows (select_newer (last_id (cache_state p)) st) (cache_state p))
       \<and> ids_bounded (fst (snd (poll_iteration interval w st (cache_state p))))
       \<and> (\<forall>out st' c' logs. submit environ w now f st (cache_state p) = Inr (out, st', c', logs)
             \<longrightarrow> ids_bounded c')
       \<and> ids_bounded (cache_state (snd (run environ interval evs (st, p))))"
  using assms ids_bounded_run [of "(st, p)" environ interval evs]
  by (auto simp: ids_bounded_load ids_bounded_merge ids_bounded_poll dest: submit_cache_unchanged)

theorem last_id_bounds_cache_witness:
  "ids_bounded (cache_state init_proc)
   \<and> last_id (cache_state (snd (run Map.empty 10 example_events (example_store, init_proc)))) = 4
   \<and> ids_bounded (cache_state (snd (run Map.empty 10 example_events (example_store, init_proc))))"
proof -
  have b: "ids_bounded (cache_state init_proc)"
    by (simp add: ids_bounded_def init_proc_def init_cache_def)
  have v: "last_id (cache_state (snd (run Map.empty 10 example_events (example_store, init_proc)))) = 4"
    by (simp add: model_defs)
  from last_id_bounds_cache [OF b, where st = example_store and interval = 10
      and environ = Map.empty and evs = example_events]
  show ?thesis using b v by blast
qed

text \<open>
  C2. The read with the cache enabled is not limited to 100 entries. A process that
  starts on a table of 100 rows loads all of them; another process inserts one row;
  the next poller iteration merges it; \<^verbatim>\<open>index\<close> then serves 101 entries, where the
  query of the uncached branch on the same table yields 100.
\<close>

theorem index_serves_101_entries:
  "index Map.empty (world_ok 2)
      (fst (run Map.empty 10 growth_events (full_store, init_proc)))
      (cache_state (snd (run Map.empty 10 growth_events (full_store, init_proc))))
    = Inr (Dicts (entries_cache (cache_state
        (snd (run Map.empty 10 growth_events (full_store, init_proc))))))
   \<and> length (entries_cache (cache_state
        (snd (run Map.empty 10 growth_events (full_store, init_proc))))) = 101
   \<and> length (select_newest 100 (fst (run Map.empty 10 growth_events (full_store, init_proc)))) = 100"
proof -
  have a: "length (entries_cache (cache_state
        (snd (run Map.empty 10 growth_events (full_store, init_proc))))) = 101"
    by code_simp
  have b: "length (select_newest 100 (fst (run Map.empty 10 growth_events (full_store, init_proc)))) = 100"
    by code_simp
  show ?thesis using a b by (simp add: index_def USE_CACHE_def environ_get_def)
qed

text \<open>
  C7. A valid submission (name Alice, message hi, empty table, cache enabled) is
  inserted into the table with id 1, but the cache update of lines 205-209 raises
  \<^verbatim>\<open>UnboundLocalError\<close>, which is caught and logged: the cache holds no entry after
  the handler, and the read that follows serves an empty list.
\<close>

theorem submit_leaves_cache_without_new_entry:
  "submit Map.empty (world_ok 1) ''t1'' alice_form [] init_cache
     = Inr (Posted, [alice_entry], init_cache,
            [Logged ''Failed to update cache on submit'' UnboundLocalError])
   \<and> run Map.empty 10 [Request (world_ok 1) ''t1'' (POST_submit alice_form)] ([], init_proc)
     = ([alice_entry],
        \<lparr>cache_state = \<lparr>entries_cache = [], last_id = 0, last_mtime = Some 1\<rparr>,
         poller_started = True, poller_threads = 1\<rparr>)
   \<and> index Map.empty (world_ok 1) [alice_entry]
        \<lparr>entries_cache = [], last_id = 0, last_mtime = Some 1\<rparr> = Inr (Dicts [])"
  by (simp add: model_defs alice_form_def alice_entry_def)

text \<open>
  C4. In an iteration whose \<^verbatim>\<open>time.sleep(interval)\<close> returns (the interval is not
  negative and not beyond what the platform can sleep): when \<^verbatim>\<open>stat\<close> fails the
  iteration only sleeps and leaves the cache as it is; when the query fails the
  exception is logged, the iteration sleeps and leaves the cache as it is; the
  iteration does not end the loop. A loop all of whose sleeps return still runs after
  any number of iterations and has slept once for each.
\<close>

theorem failed_iteration_is_contained:
  assumes "sleep w interval = Inr ()"
    and "\<forall>x \<in> set ws. sleep (fst x) interval = Inr ()"
  shows "(stat_mtime w = None \<longrightarrow> poll_iteration interval w st c = ([Slept interval], c, None))
     \<and> (\<forall>m seen. stat_mtime w = Some m \<and> last_mtime c = Some seen \<and> m \<noteq> seen \<and> \<not> db_ok w
          \<longrightarrow> poll_iteration interval w st c
              = ([Queried (last_id c), Logged ''DB poller error'' DatabaseError, Slept interval],
                 c, None))
     \<and> snd (snd (poll_iteration interval w st c)) = None
     \<and> snd (snd (poll_db interval ws c)) = None
     \<and> length (filter (\<lambda>e. e = Slept interval) (fst (poll_db interval ws c))) = length ws"
proof -
  have 1: "stat_mtime w = None \<longrightarrow> poll_iteration interval w st c = ([Slept interval], c, None)"
    using assms(1) by (simp add: poll_iteration_def poll_try_def)
  have 2: "\<forall>m seen. stat_mtime w = Some m \<and> last_mtime c = Some seen \<and> m \<noteq> seen \<and> \<not> db_ok w
          \<longrightarrow> poll_iteration interval w st c
              = ([Queried (last_id c), Logged ''DB poller error'' DatabaseError, Slept interval],
                 c, None)"
    using assms(1) by (simp add: poll_iteration_def poll_try_def final_sleep_def)
  have 3: "snd (snd (poll_iteration interval w st c)) = None"
    using poll_iteration_sleeps [OF assms(1), of st c] by auto
  show ?thesis using 1 2 3 poll_db_sleeps [OF assms(2), of c] by blast
qed

theorem failed_iteration_is_contained_witness:
  "sleep world_no_stat 10 = Inr ()
   \<and> poll_iteration 10 world_no_stat [example_row 1] (seen_cache 1) = ([Slept 10], seen_cache 1, None)
   \<and> poll_iteration 10 (world_db_down 2) [example_row 1] (seen_cache 1)
       = ([Queried 0, Logged ''DB poller error'' DatabaseError, Slept 10], seen_cache 1, None)
   \<and> snd (snd (poll_db 10 [(world_no_stat, []), (world_db_down 2, []), (world_ok 2, [example_row 1])]
        (seen_cache 1))) = None"
proof -
  have h: "sleep world_no_stat 10 = Inr ()"
    by (simp add: sleep_def world_no_stat_def platform_sleep_def)
  have h': "sleep (world_db_down 2) 10 = Inr ()"
    by (simp add: sleep_def world_db_down_def platform_sleep_def)
  have hs: "\<forall>x \<in> set [(world_no_stat, []), (world_db_down 2, []), (world_ok 2, [example_row 1])].
      sleep (fst x) 10 = Inr ()"
    by (simp add: sleep_def world_no_stat_def world_db_down_def world_ok_def platform_sleep_def)
  have n: "\<forall>x \<in> set ([] :: (world \<times> store) list). sleep (fst x) 10 = Inr ()"
    by simp
  have a: "stat_mtime world_no_stat = None" by (simp add: world_no_stat_def)
  have b: "stat_mtime (world_db_down 2) = Some 2 \<and> last_mtime (seen_cache 1) = Some 1
      \<and> (2::int) \<noteq> 1 \<and> \<not> db_ok (world_db_down 2)"
    by (simp add: world_db_down_def seen_cache_def)
  have l: "last_id (seen_cache 1) = 0" by (simp add: seen_cache_def)
  from failed_iteration_is_contained [OF h hs, of "[example_row 1]" "seen_cache 1"]
    failed_iteration_is_contained [OF h' n, of "[example_row 1]" "seen_cache 1"]
  show ?thesis using h a b l by metis
qed

text \<open>
  The claim as stated fails where \<^verbatim>\<open>time.sleep\<close> raises. With the interval -1 it
  raises \<^verbatim>\<open>ValueError\<close> in the handler of line 123, the outer handler logs it, and
  the \<^verbatim>\<open>sleep\<close> of line 142, outside the \<^verbatim>\<open>try\<close>, raises again and ends the thread in
  the very iteration whose \<^verbatim>\<open>stat\<close> failed. With the interval 10000000000 the
  first iteration ends the thread with \<^verbatim>\<open>OverflowError\<close> in the same way.
\<close>

theorem failing_sleep_ends_poller:
  "poll_db (- 1) [(world_no_stat, []), (world_ok 1, [])] init_cache
     = ([Logged ''DB poller error'' ValueError], init_cache, Some ValueError)
   \<and> poll_db 10000000000 [(world_no_stat, []), (world_ok 1, [])] init_cache
     = ([Logged ''DB poller error'' OverflowError], init_cache, Some OverflowError)"
  by (simp add: poll_iteration_def poll_try_def final_sleep_def sleep_def world_no_stat_def
      platform_sleep_def)

text \<open>
  C5. An iteration that reads the marker \<open>m\<close>. If \<open>m\<close> is the value last seen, no
  query is issued and the cache is unchanged. If no value was seen yet
  (\<^verbatim>\<open>_last_mtime is None\<close>, line 127), \<open>m\<close> is recorded and no query is issued. If
  another value was seen, exactly one query is issued, with parameter \<^verbatim>\<open>_last_id\<close>;
  when it fails the cache is unchanged; when it succeeds its rows are the entries of
  the table with a greater id, in descending order, they are put in front of the
  cache, \<^verbatim>\<open>_last_id\<close> becomes their greatest id (it stays when there is none), and \<open>m\<close>
  is recorded whether or not there were rows.
\<close>

theorem poll_iteration_with_readable_marker:
  assumes "stat_mtime w = Some m"
  shows "(last_mtime c = Some m \<longrightarrow>
            fst (snd (poll_iteration interval w st c)) = c
            \<and> queries (fst (poll_iteration interval w st c)) = [])
     \<and> (last_mtime c = None \<longrightarrow>
            fst (snd (poll_iteration interval w st c)) = c\<lparr>last_mtime := Some m\<rparr>
            \<and> queries (fst (poll_iteration interval w st c)) = [])
     \<and> (\<forall>seen. last_mtime c = Some seen \<and> seen \<noteq> m \<longrightarrow>
            queries (fst (poll_iteration interval w st c)) = [last_id c]
            \<and> (\<not> db_ok w \<longrightarrow> fst (snd (poll_iteration interval w st c)) = c)
            \<and> (db_ok w \<longrightarrow>
                 set (select_newer (last_id c) st) = {e \<in> set st. last_id c < e_id e}
                 \<and> sorted_wrt (\<ge>) (map e_id (select_newer (last_id c) st))
                 \<and> fst (snd (poll_iteration interval w st c))
                     = \<lparr>entries_cache = select_newer (last_id c) st @ entries_cache c,
                        last_id = (if select_newer (last_id c) st = [] then last_id c
                                   else Max (e_id ` set (select_newer (last_id c) st))),
                        last_mtime = Some m\<rparr>))"
proof -
  have 1: "last_mtime c = Some m \<longrightarrow>
            fst (snd (poll_iteration interval w st c)) = c
            \<and> queries (fst (poll_iteration interval w st c)) = []"
    using assms
    by (simp add: poll_iteration_def poll_try_def final_sleep_cache final_sleep_queries)
  have 2: "last_mtime c = None \<longrightarrow>
            fst (snd (poll_iteration interval w st c)) = c\<lparr>last_mtime := Some m\<rparr>
            \<and> queries (fst (poll_iteration interval w st c)) = []"
    using assms
    by (simp add: poll_iteration_def poll_try_def final_sleep_cache final_sleep_queries)
  have 3: "queries (fst (poll_iteration interval w st c)) = [last_id c]"
    if "last_mtime c = Some seen" "seen \<noteq> m" for seen
    using assms that
    by (simp add: poll_iteration_def poll_try_def final_sleep_cache final_sleep_queries
        queries_append)
  have 4: "fst (snd (poll_iteration interval w st c)) = c"
    if "last_mtime c = Some seen" "seen \<noteq> m" "\<not> db_ok w" for seen
    using assms that
    by (simp add: poll_iteration_def poll_try_def final_sleep_cache final_sleep_queries
        queries_append)
  have m: "merge_rows (select_newer (last_id c) st) c
      = c\<lparr>entries_cache := select_newer (last_id c) st @ entries_cache c,
           last_id := (if select_newer (last_id c) st = [] then last_id c
                       else Max (e_id ` set (select_newer (last_id c) st)))\<rparr>"
  proof (cases "select_newer (last_id c) st")
    case Nil
    then show ?thesis by (simp add: merge_rows_def)
  next
    case (Cons r rs)
    then show ?thesis using select_newer_max [OF Cons] by (simp add: merge_rows_def)
  qed
  have 5: "fst (snd (poll_iteration interval w st c))
        = \<lparr>entries_cache = select_newer (last_id c) st @ entries_cache c,
           last_id = (if select_newer (last_id c) st = [] then last_id c
                      else Max (e_id ` set (select_newer (last_id c) st))),
           last_mtime = Some m\<rparr>"
    if "last_mtime c = Some seen" "seen \<noteq> m" "db_ok w" for seen
  proof -
    have "fst (snd (poll_iteration interval w st c))
        = (merge_rows (select_newer (last_id c) st) c)\<lparr>last_mtime := Some m\<rparr>"
      using assms that
    by (simp add: poll_iteration_def poll_try_def final_sleep_cache final_sleep_queries
        queries_append)
    then show ?thesis by (simp add: m)
  qed
  show ?thesis
    using 1 2 3 4 5 set_select_newer [of "last_id c" st] select_newer_sorted [of "last_id c" st]
    by blast
qed

theorem poll_iteration_with_readable_marker_witness:
  "stat_mtime (world_ok 2) = Some 2
   \<and> poll_iteration 10 (world_ok 1) [example_row 1] (seen_cache 1) = ([Slept 10], seen_cache 1, None)
   \<and> fst (snd (poll_iteration 10 (world_ok 2) [example_row 1] (seen_cache 1)))
       = \<lparr>entries_cache = [example_row 1], last_id = 1, last_mtime = Some 2\<rparr>
   \<and> queries (fst (poll_iteration 10 (world_ok 2) [example_row 1] (seen_cache 1))) = [0]
   \<and> fst (snd (poll_iteration 10 (world_ok 2) [] (seen_cache 1))) = seen_cache 2"
proof -
  have h: "stat_mtime (world_ok 2) = Some 2" by (simp add: world_ok_def)
  have s: "last_mtime (seen_cache 1) = Some 1 \<and> (1::int) \<noteq> 2 \<and> db_ok (world_ok 2)
      \<and> last_id (seen_cache 1) = 0 \<and> entries_cache (seen_cache 1) = []"
    by (simp add: seen_cache_def world_ok_def)
  have r: "select_newer 0 [example_row 1] = [example_row 1] \<and> select_newer 0 [] = []
      \<and> e_id (example_row 1) = 1"
    by (simp add: select_newer_def order_by_id_desc_def example_row_def)
  have e: "poll_iteration 10 (world_ok 1) [example_row 1] (seen_cache 1) = ([Slept 10], seen_cache 1, None)"
    by (simp add: poll_iteration_def poll_try_def final_sleep_def sleep_def world_ok_def
        platform_sleep_def
        seen_cache_def)
  from poll_iteration_with_readable_marker [OF h, of "seen_cache 1" 10 "[example_row 1]"]
  have a: "fst (snd (poll_iteration 10 (world_ok 2) [example_row 1] (seen_cache 1)))
       = \<lparr>entries_cache = [example_row 1], last_id = 1, last_mtime = Some 2\<rparr>
     \<and> queries (fst (poll_iteration 10 (world_ok 2) [example_row 1] (seen_cache 1))) = [0]"
    using s r by simp
  from poll_iteration_with_readable_marker [OF h, of "seen_cache 1" 10 "[]"]
  have b: "fst (snd (poll_iteration 10 (world_ok 2) [] (seen_cache 1))) = seen_cache 2"
    using s r by (simp add: seen_cache_def)
  show ?thesis using h e a b by simp
qed

text \<open>
  The claim as stated fails when no marker was seen yet. A process whose initial load
  failed keeps the initial cache; in its next iteration the marker 7 differs from what
  was seen (nothing) and the table has a row with an id above \<^verbatim>\<open>_last_id\<close>, yet no
  query is issued and the row is not put into the cache.
\<close>

theorem first_marker_is_recorded_without_query:
  "cache_state (snd (run Map.empty 10 [Request (world_db_down 1) ''t0'' GET_index]
        ([example_row 1], init_proc))) = init_cache
   \<and> last_mtime init_cache \<noteq> Some 7
   \<and> select_newer (last_id init_cache) [example_row 1] = [example_row 1]
   \<and> poll_iteration 10 (world_ok 7) [example_row 1] init_cache
       = ([Slept 10], \<lparr>entries_cache = [], last_id = 0, last_mtime = Some 7\<rparr>, None)"
  by (simp add: model_defs world_db_down_def)

text \<open>
  C8. A submission whose message is empty once stripped, or whose stripped name has
  more than 50 characters, or whose stripped message has more than 1000, is answered
  with one of the three error texts; the table and the cache are unchanged.
\<close>

theorem submit_rejects_invalid_fields:
  assumes "strip (form_get (form_message f) []) = []
         \<or> length (strip (form_get (form_name f) [])) > 50
         \<or> length (strip (form_get (form_message f) [])) > 1000"
  shows "\<exists>txt \<in> {''Message is required.'', ''Name must be 50 characters or fewer.'',
                   ''Message is too long (max 1000 characters).''}.
           submit environ w now f st c = Inr (Rejected txt, st, c, [])"
  using assms by (auto simp: submit_def Let_def str_of_def)

theorem submit_rejects_invalid_fields_witness:
  "strip (form_get (form_message empty_message_form) []) = []
   \<and> submit Map.empty (world_ok 1) ''t1'' empty_message_form [example_row 1] init_cache
       = Inr (Rejected ''Message is required.'', [example_row 1], init_cache, [])"
proof -
  have h: "strip (form_get (form_message empty_message_form) []) = []"
    by (simp add: empty_message_form_def form_get_def strip_def)
  from submit_rejects_invalid_fields [OF disjI1, OF h, of Map.empty "world_ok 1" "''t1''"
      "[example_row 1]" init_cache]
  have "\<exists>txt. submit Map.empty (world_ok 1) ''t1'' empty_message_form
      [example_row 1] init_cache = Inr (Rejected txt, [example_row 1], init_cache, [])"
    by blast
  moreover have "submit Map.empty (world_ok 1) ''t1'' empty_message_form
      [example_row 1] init_cache = Inr (Rejected ''Message is required.'', [example_row 1], init_cache, [])"
    by (simp add: submit_def Let_def h)
  ultimately show ?thesis using h by blast
qed

text \<open>
  The claim as stated fails for a name field of 51 characters, the letter A followed
  by 50 spaces, with message hi: the handler strips the name to one character before it
  checks the length, accepts the submission and inserts the row.
\<close>

theorem padded_name_is_accepted:
  "length (form_get (form_name padded_form) []) = 51
   \<and> submit Map.empty (world_ok 1) ''t1'' padded_form [] init_cache
       = Inr (Posted,
              [\<lparr>e_id = 1, e_name = [65], e_message = str_of ''hi'', e_created_at = ''t1''\<rparr>],
              init_cache, [Logged ''Failed to update cache on submit'' UnboundLocalError])"
proof -
  have n: "form_get (form_name padded_form) [] = 65 # replicate 50 32"
    by (simp add: padded_form_def form_of_def form_get_def)
  have m: "strip (form_get (form_message padded_form) []) = str_of ''hi''"
    by (simp add: padded_form_def form_of_def form_get_def strip_def isspace_def str_of_def)
  show ?thesis
    by (simp add: submit_def Let_def n m strip_padded submit_update_cache_def insert_row_def
        next_rowid_def table_full_def world_ok_def USE_CACHE_def environ_get_def str_of_def)
qed

text \<open>
  C9. A submission that reaches the body of \<^verbatim>\<open>submit\<close> (Talisman does not redirect
  it, the rate limiter lets it through, and the request is within the limit of 8192
  bytes), whose name field is missing, empty or made of whitespace only, and whose
  message passes the checks, is stored with the name Anonymous when the database
  accepts the insert; its key is above every key of the table.
\<close>

theorem blank_name_becomes_anonymous:
  assumes "\<forall>ch \<in> set (form_get (form_name (post_form r)) []). isspace ch"
    and "strip (form_get (form_message (post_form r)) []) \<noteq> []"
    and "length (strip (form_get (form_message (post_form r)) [])) \<le> 1000"
    and "\<not> sent_to_https w" and "\<not> limiter_refuses w"
    and "content_length r \<le> MAX_CONTENT_LENGTH"
    and "db_ok w" and "\<not> table_full st"
  shows "\<exists>i logs. submit_request environ w now r st c
           = Inr (Posted,
                  st @ [\<lparr>e_id = i, e_name = str_of ''Anonymous'',
                         e_message = strip (form_get (form_message (post_form r)) []),
                         e_created_at = now\<rparr>],
                  c, logs)
           \<and> (\<forall>e \<in> set st. e_id e < i)"
proof -
  have "\<exists>logs. submit environ w now (post_form r) st c
           = Inr (Posted,
                  st @ [\<lparr>e_id = next_rowid st, e_name = str_of ''Anonymous'',
                         e_message = strip (form_get (form_message (post_form r)) []),
                         e_created_at = now\<rparr>],
                  c, logs)"
    using assms(1-3,7,8) by (rule submit_blank_name)
  moreover have "submit_request environ w now r st c = submit environ w now (post_form r) st c"
    using assms(4-6) by (simp add: submit_request_def)
  ultimately show ?thesis
    using next_rowid_fresh [of _ st] by auto
qed

theorem blank_name_becomes_anonymous_witness:
  "form_get (form_name (post_form blank_name_post)) [] = []
   \<and> content_length blank_name_post = 16
   \<and> (\<exists>logs. submit_request Map.empty (world_ok 1) ''t1'' blank_name_post [example_row 1] init_cache
         = Inr (Posted,
                [example_row 1,
                 \<lparr>e_id = 2, e_name = str_of ''Anonymous'', e_message = str_of ''yo'',
                  e_created_at = ''t1''\<rparr>],
                init_cache, logs))"
proof -
  have e: "form_get (form_name (post_form blank_name_post)) [] = []"
    by (simp add: blank_name_post_def blank_name_form_def form_of_def form_get_def)
  have a: "\<forall>ch \<in> set (form_get (form_name (post_form blank_name_post)) []). isspace ch"
    by (simp add: e)
  have m: "strip (form_get (form_message (post_form blank_name_post)) []) = str_of ''yo''"
    by (simp add: blank_name_post_def blank_name_form_def form_of_def form_get_def strip_def
        isspace_def str_of_def)
  have b: "strip (form_get (form_message (post_form blank_name_post)) []) \<noteq> []"
    by (simp add: m str_of_def)
  have l: "length (strip (form_get (form_message (post_form blank_name_post)) [])) \<le> 1000"
    by (simp add: m str_of_def)
  have k: "content_length blank_name_post = 16"
    by (simp add: content_length_def blank_name_post_def blank_name_form_def form_of_def
        form_get_def str_of_def)
  have k': "content_length blank_name_post \<le> MAX_CONTENT_LENGTH"
    by (simp add: k MAX_CONTENT_LENGTH_def)
  have d: "db_ok (world_ok 1)" "\<not> limiter_refuses (world_ok 1)" "\<not> sent_to_https (world_ok 1)"
    by (simp_all add: world_ok_def)
  have f: "\<not> table_full [example_row 1]"
    by (simp add: table_full_def example_row_def)
  have v: "submit_request Map.empty (world_ok 1) ''t1'' blank_name_post [example_row 1] init_cache
      = Inr (Posted,
             [example_row 1,
              \<lparr>e_id = 2, e_name = str_of ''Anonymous'', e_message = str_of ''yo'',
               e_created_at = ''t1''\<rparr>],
             init_cache, [Logged ''Failed to update cache on submit'' UnboundLocalError])"
    by (simp add: submit_request_def content_length_def MAX_CONTENT_LENGTH_def submit_def
        Let_def blank_name_post_def blank_name_form_def form_of_def form_get_def strip_def
        isspace_def world_ok_def table_full_def next_rowid_def insert_row_def example_row_def
        submit_update_cache_def USE_CACHE_def environ_get_def str_of_def)
  from blank_name_becomes_anonymous [OF a b l d(3) d(2) k' d(1) f, of Map.empty "''t1''" init_cache]
  show ?thesis using e k v by simp
qed

text \<open>
  The claim as stated fails for a name of 9000 spaces with message yo: the request is
  above the limit of line 25 and is answered 413 with nothing stored. It fails as well
  for an empty name and message yo when a limit of the rate limiter is used up (the
  answer is 429), and when Talisman redirects the request to HTTPS.
\<close>

theorem oversized_blank_name_is_refused:
  "form_get (form_name (post_form spaces_name_post)) [] = replicate 9000 32
   \<and> form_get (form_message (post_form spaces_name_post)) [] = str_of ''yo''
   \<and> submit_request Map.empty (world_ok 1) ''t1'' spaces_name_post [] init_cache
       = Inl RequestEntityTooLarge
   \<and> submit_request Map.empty world_limited ''t1'' blank_name_post [] init_cache
       = Inl RateLimitExceeded
   \<and> submit_request Map.empty world_plain_http ''t1'' blank_name_post [] init_cache
       = Inr (To_https, [], init_cache, [])"
  by (simp add: submit_request_def content_length_def MAX_CONTENT_LENGTH_def
      spaces_name_post_def form_of_def form_get_def world_ok_def world_limited_def
      world_plain_http_def)

text \<open>
  C10. Each of the two switches is on exactly when its environment variable is absent
  (the default is '1') or holds the string '1'; every other value, 'true' and 'yes'
  among them, switches it off.
\<close>

theorem switches_on_iff_exactly_1:
  "(ENABLE_POLLER environ \<longleftrightarrow>
      environ ''GUESTBOOK_ENABLE_POLLER'' = None \<or> environ ''GUESTBOOK_ENABLE_POLLER'' = Some ''1'')
   \<and> (USE_CACHE environ \<longleftrightarrow>
      environ ''GUESTBOOK_USE_CACHE'' = None \<or> environ ''GUESTBOOK_USE_CACHE'' = Some ''1'')"
  by (simp add: ENABLE_POLLER_def USE_CACHE_def environ_get_def split: option.split)

theorem switches_on_iff_exactly_1_witness:
  "ENABLE_POLLER Map.empty \<and> USE_CACHE Map.empty
   \<and> ENABLE_POLLER [''GUESTBOOK_ENABLE_POLLER'' \<mapsto> ''1'']
   \<and> \<not> ENABLE_POLLER [''GUESTBOOK_ENABLE_POLLER'' \<mapsto> ''true'']
   \<and> \<not> USE_CACHE [''GUESTBOOK_USE_CACHE'' \<mapsto> ''yes'']
   \<and> \<not> USE_CACHE [''GUESTBOOK_USE_CACHE'' \<mapsto> ''0'']"
  using switches_on_iff_exactly_1 [of Map.empty]
    switches_on_iff_exactly_1 [of "[''GUESTBOOK_ENABLE_POLLER'' \<mapsto> ''1'']"]
    switches_on_iff_exactly_1 [of "[''GUESTBOOK_ENABLE_POLLER'' \<mapsto> ''true'']"]
    switches_on_iff_exactly_1 [of "[''GUESTBOOK_USE_CACHE'' \<mapsto> ''yes'']"]
    switches_on_iff_exactly_1 [of "[''GUESTBOOK_USE_CACHE'' \<mapsto> ''0'']"]
  by simp

end
